theory Spec2Isabelle
  imports Complex_Main "HOL-Library.AList" "HOL-Library.Char_ord" "HOL-Library.List_Lexorder"
begin

section \<open>Text primitives used by the protocol layer\<close>

text \<open>
  Python text is modelled as \<^typ>\<open>string\<close>: a list of characters with code points below 256.
  The functions below are the \<^verbatim>\<open>str\<close> methods that \<^verbatim>\<open>EVProtocol\<close> calls, with Python's
  results written out.
\<close>

definition START_CHAR :: char where "START_CHAR = CHR ''<''"
definition END_CHAR :: char where "END_CHAR = CHR ''>''"
definition SEPARATOR :: char where "SEPARATOR = CHR '':''"
definition PARAM_SEP :: char where "PARAM_SEP = CHR '';''"
definition VALUE_SEP :: char where "VALUE_SEP = CHR ''=''"

text \<open>\<^verbatim>\<open>find_idx c s\<close>: offset of the first occurrence of \<open>c\<close> in \<open>s\<close>, if any.\<close>

fun find_idx :: "char \<Rightarrow> string \<Rightarrow> nat option" where
  "find_idx c [] = None"
| "find_idx c (x # xs) = (if x = c then Some 0 else map_option Suc (find_idx c xs))"

text \<open>\<^verbatim>\<open>s.find(c, start)\<close>: the lowest index at or after \<open>start\<close> holding \<open>c\<close>, or \<open>-1\<close>.\<close>

definition str_find :: "string \<Rightarrow> char \<Rightarrow> nat \<Rightarrow> int" where
  "str_find s c start =
     (case find_idx c (drop start s) of None \<Rightarrow> - 1 | Some i \<Rightarrow> int (start + i))"

text \<open>\<^verbatim>\<open>s[i:j]\<close> and \<^verbatim>\<open>s[i:]\<close> for non-negative bounds.\<close>

definition slice :: "string \<Rightarrow> nat \<Rightarrow> nat \<Rightarrow> string" where
  "slice s i j = take (j - i) (drop i s)"

definition slice_from :: "string \<Rightarrow> nat \<Rightarrow> string" where
  "slice_from s i = drop i s"

text \<open>
  Whitespace as \<^verbatim>\<open>str.strip()\<close>, \<^verbatim>\<open>int()\<close> and \<^verbatim>\<open>float()\<close> see it among the code points
  below 256: tab to carriage return, the four separators 0x1C to 0x1F, space, 0x85, 0xA0.
\<close>

definition is_space :: "char \<Rightarrow> bool" where
  "is_space c \<longleftrightarrow> c \<in> set [CHR 0x09, CHR 0x0A, CHR 0x0B, CHR 0x0C, CHR 0x0D,
                           CHR 0x1C, CHR 0x1D, CHR 0x1E, CHR 0x1F, CHR 0x20, CHR 0x85, CHR 0xA0]"

text \<open>\<^verbatim>\<open>s.strip()\<close>, \<^verbatim>\<open>s.lstrip(c)\<close> and \<^verbatim>\<open>s.rstrip(c)\<close> for a one-character set \<open>c\<close>.\<close>

definition str_strip :: "string \<Rightarrow> string" where
  "str_strip s = rev (dropWhile is_space (rev (dropWhile is_space s)))"

definition str_lstrip :: "char \<Rightarrow> string \<Rightarrow> string" where
  "str_lstrip c s = dropWhile (\<lambda>x. x = c) s"

definition str_rstrip :: "char \<Rightarrow> string \<Rightarrow> string" where
  "str_rstrip c s = rev (dropWhile (\<lambda>x. x = c) (rev s))"

text \<open>
  \<^verbatim>\<open>s.split(c, 1)\<close> where the source has checked \<^verbatim>\<open>c in s\<close>: the text before the first
  \<open>c\<close> and the text after it.
\<close>

definition split_once :: "char \<Rightarrow> string \<Rightarrow> string \<times> string" where
  "split_once c s = (takeWhile (\<lambda>x. x \<noteq> c) s, drop 1 (dropWhile (\<lambda>x. x \<noteq> c) s))"

text \<open>\<^verbatim>\<open>s.split(c)\<close>: every piece between separators; the empty text gives one empty piece.\<close>

fun str_split :: "char \<Rightarrow> string \<Rightarrow> string list" where
  "str_split c [] = [[]]"
| "str_split c (x # xs) =
     (if x = c then [] # str_split c xs
      else (case str_split c xs of [] \<Rightarrow> [[x]] | t # ts \<Rightarrow> (x # t) # ts))"

text \<open>\<^verbatim>\<open>sep.join(pieces)\<close>.\<close>

fun str_join :: "string \<Rightarrow> string list \<Rightarrow> string" where
  "str_join sep [] = []"
| "str_join sep [x] = x"
| "str_join sep (x # y # ys) = x @ sep @ str_join sep (y # ys)"

section \<open>Python values\<close>

text \<open>
  The values a payload, the telemetry, the fault list and the configuration hold: \<^verbatim>\<open>None\<close>,
  \<^verbatim>\<open>bool\<close>, \<^verbatim>\<open>int\<close> (unbounded), \<^verbatim>\<open>float\<close> and \<^verbatim>\<open>str\<close>. A float is the real number it denotes
  or an infinity; \<^verbatim>\<open>float()\<close> is only applied to text that contains a dot, which never
  gives a NaN. Lists and objects, which a hand-edited configuration file could hold, are
  left out.
\<close>

datatype pyfloat = Finite real | PosInf | NegInf

datatype pyval = VNone | VBool bool | VInt int | VFloat pyfloat | VStr string

text \<open>A \<^verbatim>\<open>dict\<close> with text keys keeps insertion order; assignment is \<^const>\<open>AList.update\<close>.\<close>

type_synonym pydict = "(string \<times> pyval) list"

definition dict_get :: "pydict \<Rightarrow> string \<Rightarrow> pyval \<Rightarrow> pyval" where
  "dict_get d k dflt = (case map_of d k of Some v \<Rightarrow> v | None \<Rightarrow> dflt)"

definition dict_has :: "pydict \<Rightarrow> string \<Rightarrow> bool" where
  "dict_has d k \<longleftrightarrow> k \<in> set (map fst d)"

definition dict_update :: "pydict \<Rightarrow> pydict \<Rightarrow> pydict" where
  "dict_update d e = fold (\<lambda>(k, v). AList.update k v) e d"

text \<open>Truth value of a value in an \<^verbatim>\<open>if\<close>.\<close>

fun truthy :: "pyval \<Rightarrow> bool" where
  "truthy VNone = False"
| "truthy (VBool b) = b"
| "truthy (VInt i) = (i \<noteq> 0)"
| "truthy (VFloat f) = (f \<noteq> Finite 0)"
| "truthy (VStr s) = (s \<noteq> [])"

text \<open>
  Numbers compare across \<^verbatim>\<open>bool\<close>, \<^verbatim>\<open>int\<close> and \<^verbatim>\<open>float\<close> by their exact value. \<^verbatim>\<open>==\<close> is
  defined between any two values; \<^verbatim>\<open><\<close> and \<^verbatim>\<open>>\<close> raise \<^verbatim>\<open>TypeError\<close> unless both sides are
  numbers or both are text.
\<close>

fun as_num :: "pyval \<Rightarrow> pyfloat option" where
  "as_num (VBool b) = Some (Finite (if b then 1 else 0))"
| "as_num (VInt i) = Some (Finite (of_int i))"
| "as_num (VFloat f) = Some f"
| "as_num VNone = None"
| "as_num (VStr s) = None"

fun float_less :: "pyfloat \<Rightarrow> pyfloat \<Rightarrow> bool" where
  "float_less (Finite x) (Finite y) = (x < y)"
| "float_less NegInf (Finite y) = True"
| "float_less NegInf PosInf = True"
| "float_less (Finite x) PosInf = True"
| "float_less x y = False"

definition py_eq :: "pyval \<Rightarrow> pyval \<Rightarrow> bool" where
  "py_eq a b = (case (as_num a, as_num b) of
                  (Some x, Some y) \<Rightarrow> x = y
                | (None, None) \<Rightarrow> a = b
                | _ \<Rightarrow> False)"

datatype error = TypeError

definition py_lt :: "pyval \<Rightarrow> pyval \<Rightarrow> error + bool" where
  "py_lt a b = (case (as_num a, as_num b) of
                  (Some x, Some y) \<Rightarrow> Inr (float_less x y)
                | _ \<Rightarrow> (case (a, b) of (VStr s, VStr t) \<Rightarrow> Inr (s < t) | _ \<Rightarrow> Inl TypeError))"

definition py_gt :: "pyval \<Rightarrow> pyval \<Rightarrow> error + bool" where
  "py_gt a b = py_lt b a"

text \<open>\<^verbatim>\<open>v in xs\<close> for a list: some element equals \<open>v\<close>.\<close>

definition py_in :: "pyval \<Rightarrow> pyval list \<Rightarrow> bool" where
  "py_in v xs = list_ex (py_eq v) xs"

subsection \<open>Reading and printing numbers\<close>

definition is_digit :: "char \<Rightarrow> bool" where
  "is_digit c \<longleftrightarrow> c \<in> set ''0123456789''"

definition digit_val :: "char \<Rightarrow> nat" where
  "digit_val c = of_char c - 48"

text \<open>
  A run of digits in which single underscores may stand between digits, as \<^verbatim>\<open>int()\<close> and
  \<^verbatim>\<open>float()\<close> accept it; the result is the digits alone.
\<close>

fun digitpart :: "string \<Rightarrow> string option" where
  "digitpart [] = None"
| "digitpart [c] = (if is_digit c then Some [c] else None)"
| "digitpart (c # d # cs) =
     (if is_digit c then
        (if d = CHR ''_'' then map_option ((#) c) (digitpart cs)
         else map_option ((#) c) (digitpart (d # cs)))
      else None)"

definition nat_of_digits :: "string \<Rightarrow> nat" where
  "nat_of_digits ds = foldl (\<lambda>a c. 10 * a + digit_val c) 0 ds"

text \<open>A leading sign: whether it is a minus, and the text after it.\<close>

fun take_sign :: "string \<Rightarrow> bool \<times> string" where
  "take_sign [] = (False, [])"
| "take_sign (c # cs) =
     (if c = CHR ''-'' then (True, cs) else if c = CHR ''+'' then (False, cs) else (False, c # cs))"

text \<open>
  \<^verbatim>\<open>int(s)\<close> in base ten: \<open>None\<close> is \<^verbatim>\<open>ValueError\<close>. The interpreter's limit on the number of
  digits is not modelled.
\<close>

definition py_int :: "string \<Rightarrow> int option" where
  "py_int s =
     (let (neg, body) = take_sign (str_strip s)
      in case digitpart body of
           None \<Rightarrow> None
         | Some ds \<Rightarrow> Some (if neg then - int (nat_of_digits ds) else int (nat_of_digits ds)))"

text \<open>
  \<^verbatim>\<open>float(s)\<close> on a decimal literal: sign, digits with an optional dot, optional exponent.
  The grammar is written out; the binary rounding of the decimal \<open>m \<times> 10\<^sup>e\<close> is the
  parameter \<open>rnd\<close> (sign, \<open>m\<close>, \<open>e\<close>). The words \<^verbatim>\<open>inf\<close> and \<^verbatim>\<open>nan\<close> hold no dot and never reach
  \<^verbatim>\<open>float()\<close> in this program, so they are left out.
\<close>

type_synonym rounding = "bool \<Rightarrow> nat \<Rightarrow> int \<Rightarrow> pyfloat"

definition opt_digitpart :: "string \<Rightarrow> string option" where
  "opt_digitpart s = (if s = [] then Some [] else digitpart s)"

definition mantissa :: "string \<Rightarrow> (string \<times> string) option" where
  "mantissa s =
     (if CHR ''.'' \<in> set s then
        (let (ip, fp) = split_once (CHR ''.'') s
         in if ip = [] \<and> fp = [] then None
            else (case (opt_digitpart ip, opt_digitpart fp) of
                    (Some i, Some f) \<Rightarrow> Some (i, f)
                  | _ \<Rightarrow> None))
      else map_option (\<lambda>i. (i, [])) (digitpart s))"

definition exponent :: "string \<Rightarrow> int option" where
  "exponent s =
     (let (neg, body) = take_sign s
      in map_option (\<lambda>ds. if neg then - int (nat_of_digits ds) else int (nat_of_digits ds))
           (digitpart body))"

definition py_float :: "rounding \<Rightarrow> string \<Rightarrow> pyfloat option" where
  "py_float rnd s =
     (let (neg, body) = take_sign (str_strip s);
          epos = (\<lambda>x. x \<noteq> CHR ''e'' \<and> x \<noteq> CHR ''E'');
          mant = takeWhile epos body;
          etail = dropWhile epos body
      in case mantissa mant of
           None \<Rightarrow> None
         | Some (i, f) \<Rightarrow>
             (case (if etail = [] then Some 0 else exponent (drop 1 etail)) of
                None \<Rightarrow> None
              | Some e \<Rightarrow> Some (rnd neg (nat_of_digits (i @ f)) (e - int (length f)))))"

text \<open>\<^verbatim>\<open>str(n)\<close> for an integer.\<close>

definition digit_char :: "nat \<Rightarrow> char" where
  "digit_char n = ''0123456789'' ! (n mod 10)"

fun str_of_nat :: "nat \<Rightarrow> string" where
  "str_of_nat n = (if n < 10 then [digit_char n] else str_of_nat (n div 10) @ [digit_char n])"

declare str_of_nat.simps [simp del]

definition str_of_int :: "int \<Rightarrow> string" where
  "str_of_int i = (if i < 0 then CHR ''-'' # str_of_nat (nat (- i)) else str_of_nat (nat i))"

text \<open>
  \<^verbatim>\<open>f"{v}"\<close>: the text of a value. The shortest-digits printing of a float is the
  parameter \<open>fstr\<close>.
\<close>

fun py_str :: "(pyfloat \<Rightarrow> string) \<Rightarrow> pyval \<Rightarrow> string" where
  "py_str fstr VNone = ''None''"
| "py_str fstr (VBool b) = (if b then ''True'' else ''False'')"
| "py_str fstr (VInt i) = str_of_int i"
| "py_str fstr (VFloat f) = fstr f"
| "py_str fstr (VStr s) = s"

section \<open>Frame extraction in the receive loop\<close>

text \<open>Facts about \<^const>\<open>find_idx\<close> that the termination of the scan rests on.\<close>

lemma find_idx_bound: "find_idx c s = Some i \<Longrightarrow> i < length s"
  by (induction s arbitrary: i) (auto split: if_splits)

lemma find_idx_None: "find_idx c s = None \<longleftrightarrow> c \<notin> set s"
  by (induction s) auto

lemma str_find_mem: "c \<in> set s \<Longrightarrow> 0 \<le> str_find s c 0"
  by (cases "find_idx c s") (simp_all add: str_find_def find_idx_None)

text \<open>
  The inner \<^verbatim>\<open>while\<close> of \<^verbatim>\<open>EVProtocol._receive_loop\<close>, run on the buffer after a chunk has
  been appended. It returns the raw frames it cut out, in order, and the buffer it leaves.
\<close>

function receive_scan :: "string \<Rightarrow> string list \<times> string" where
  "receive_scan buffer =
     (if START_CHAR \<in> set buffer \<and> END_CHAR \<in> set buffer then
        (let start = str_find buffer START_CHAR 0;
             endp = str_find buffer END_CHAR (nat start)
         in if endp > start then
              (let message = slice buffer (nat start) (nat (endp + 1));
                   rest = slice_from buffer (nat (endp + 1));
                   (msgs, buffer') = receive_scan rest
               in (message # msgs, buffer'))
            else ([], buffer))
      else ([], buffer))"
  by pat_completeness auto

termination
proof (relation "measure length", goal_cases)
  case 1
  show ?case by simp
next
  case (2 buffer start endp message rest)
  have "0 \<le> start"
    using 2 str_find_mem [of START_CHAR buffer] by simp
  with 2 have "0 < nat (endp + 1)" by simp
  moreover have "buffer \<noteq> []" using 2 by auto
  ultimately show ?case using 2 by (simp add: slice_from_def)
qed

declare receive_scan.simps [simp del]

text \<open>
  One pass of the outer loop with data waiting: the chunk is appended to the buffer and
  the buffer is scanned. \<open>rx_chunks\<close> runs the passes for a list of chunks, starting from
  the buffer the loop holds, and collects the frames of all passes.
\<close>

definition rx_chunk :: "string \<Rightarrow> string \<Rightarrow> string list \<times> string" where
  "rx_chunk buffer data = receive_scan (buffer @ data)"

fun rx_chunks :: "string \<Rightarrow> string list \<Rightarrow> string list \<times> string" where
  "rx_chunks buffer [] = ([], buffer)"
| "rx_chunks buffer (data # more) =
     (let (msgs, buffer') = rx_chunk buffer data;
          (msgs', buffer'') = rx_chunks buffer' more
      in (msgs @ msgs', buffer''))"

subsection \<open>Reading from the port\<close>

text \<open>
  A read gives bytes; a byte is an 8-bit value. The predicates below are the tests of the
  UTF-8 decoder on the bytes that follow a lead byte.
\<close>

type_synonym byte = char

definition byte_val :: "byte \<Rightarrow> nat" where
  "byte_val b = of_char b"

definition is_cont :: "byte \<Rightarrow> bool" where
  "is_cont c \<longleftrightarrow> 0x80 \<le> byte_val c \<and> byte_val c < 0xC0"

definition valid_second3 :: "nat \<Rightarrow> byte \<Rightarrow> bool" where
  "valid_second3 lead c \<longleftrightarrow>
     is_cont c \<and> \<not> (if byte_val c < 0xA0 then lead = 0xE0 else lead = 0xED)"

definition valid_second4 :: "nat \<Rightarrow> byte \<Rightarrow> bool" where
  "valid_second4 lead c \<longleftrightarrow>
     is_cont c \<and> \<not> (if byte_val c < 0x90 then lead = 0xF0 else lead = 0xF4)"

definition two_byte_char :: "nat \<Rightarrow> byte \<Rightarrow> char option" where
  "two_byte_char lead c =
     (let cp = (lead - 0xC0) * 64 + (byte_val c - 0x80)
      in if cp < 256 then Some (char_of cp) else None)"

text \<open>
  \<^verbatim>\<open>raw.decode('utf-8', errors='ignore')\<close>: every byte the decoder reports as an error is
  left out and decoding goes on behind it. The errors are an invalid start byte (one
  byte), an invalid continuation byte (the bytes of the sequence before it) and a
  sequence cut off by the end of the input (all of it). The result is \<open>None\<close> when the
  text has a code point above 255, which the characters of this model do not cover.
\<close>

fun utf8_ignore :: "byte list \<Rightarrow> string option" where
  "utf8_ignore [] = Some []"
| "utf8_ignore (b # bs) =
     (let lead = byte_val b in
      if lead < 0x80 then map_option ((#) b) (utf8_ignore bs)
      else if lead < 0xC2 then utf8_ignore bs
      else if lead < 0xE0 then
        (case bs of
           [] \<Rightarrow> Some []
         | c # cs \<Rightarrow>
             if is_cont c then
               (case two_byte_char lead c of
                  None \<Rightarrow> None
                | Some ch \<Rightarrow> map_option ((#) ch) (utf8_ignore cs))
             else utf8_ignore bs)
      else if lead < 0xF0 then
        (case bs of
           [] \<Rightarrow> Some []
         | c1 # cs \<Rightarrow>
             if \<not> valid_second3 lead c1 then utf8_ignore bs
             else (case cs of
                     [] \<Rightarrow> Some []
                   | c2 # ds \<Rightarrow> if is_cont c2 then None else utf8_ignore cs))
      else if lead < 0xF5 then
        (case bs of
           [] \<Rightarrow> Some []
         | c1 # cs \<Rightarrow>
             if \<not> valid_second4 lead c1 then utf8_ignore bs
             else (case cs of
                     [] \<Rightarrow> Some []
                   | c2 # ds \<Rightarrow>
                       if \<not> is_cont c2 then utf8_ignore cs
                       else (case ds of
                               [] \<Rightarrow> Some []
                             | c3 # es \<Rightarrow> if is_cont c3 then None else utf8_ignore ds)))
      else utf8_ignore bs)"

text \<open>
  One pass of the outer loop with bytes waiting, from the read on: the bytes are decoded,
  the text is appended to the buffer and the buffer is scanned. \<open>rx_reads\<close> runs the
  passes for the reads of a list.
\<close>

definition rx_read :: "string \<Rightarrow> byte list \<Rightarrow> (string list \<times> string) option" where
  "rx_read buffer raw = map_option (rx_chunk buffer) (utf8_ignore raw)"

fun rx_reads :: "string \<Rightarrow> byte list list \<Rightarrow> (string list \<times> string) option" where
  "rx_reads buffer [] = Some ([], buffer)"
| "rx_reads buffer (raw # later) =
     (case rx_read buffer raw of
        None \<Rightarrow> None
      | Some (msgs, buffer') \<Rightarrow>
          (case rx_reads buffer' later of
             None \<Rightarrow> None
           | Some (msgs', buffer'') \<Rightarrow> Some (msgs @ msgs', buffer'')))"

section \<open>Frame codec\<close>

text \<open>
  A decoded frame: the entries \<^verbatim>\<open>'type'\<close> and \<^verbatim>\<open>'data'\<close> of the dictionary that
  \<^verbatim>\<open>_parse_message\<close> returns. The main application adds \<^verbatim>\<open>'timestamp'\<close>, a clock reading
  that no code reads; it is not part of the record.
\<close>

record message =
  msg_type :: string
  msg_data :: pydict

text \<open>The \<^verbatim>\<open>try\<close>/\<^verbatim>\<open>except ValueError\<close> around the numeric conversions of one value.\<close>

definition typed_value :: "rounding \<Rightarrow> string \<Rightarrow> pyval" where
  "typed_value rnd v =
     (if CHR ''.'' \<in> set v then
        (case py_float rnd v of Some f \<Rightarrow> VFloat f | None \<Rightarrow> VStr v)
      else
        (case py_int v of Some n \<Rightarrow> VInt n | None \<Rightarrow> VStr v))"

text \<open>The body of \<^verbatim>\<open>for param in params\<close> in \<^verbatim>\<open>porsche_main_application.py\<close>.\<close>

definition parse_param :: "rounding \<Rightarrow> string \<Rightarrow> pydict \<Rightarrow> pydict" where
  "parse_param rnd param data =
     (if VALUE_SEP \<in> set param then
        (let (key, v) = split_once VALUE_SEP param
         in AList.update key (typed_value rnd v) data)
      else AList.update param (VBool True) data)"

text \<open>The kind token and the payload text of a frame whose delimiters are stripped.\<close>

definition split_kind :: "string \<Rightarrow> string \<times> string" where
  "split_kind m = (if SEPARATOR \<in> set m then split_once SEPARATOR m else (m, []))"

definition strip_frame :: "string \<Rightarrow> string" where
  "strip_frame raw = str_rstrip END_CHAR (str_lstrip START_CHAR (str_strip raw))"

text \<open>
  \<^verbatim>\<open>EVProtocol._parse_message\<close> of \<^verbatim>\<open>porsche_main_application.py\<close>. No statement of its
  \<^verbatim>\<open>try\<close> block raises anything but the \<^verbatim>\<open>ValueError\<close> handled inside, so the result is
  never \<^verbatim>\<open>None\<close>.
\<close>

definition parse_message :: "rounding \<Rightarrow> string \<Rightarrow> message option" where
  "parse_message rnd raw =
     (let (mtype, data_str) = split_kind (strip_frame raw);
          data = (if data_str \<noteq> [] then fold (parse_param rnd) (str_split PARAM_SEP data_str) []
                  else [])
      in Some \<lparr>msg_type = mtype, msg_data = data\<rparr>)"

text \<open>
  \<^verbatim>\<open>EVProtocol._parse_message\<close> of \<^verbatim>\<open>standalone_test.py\<close>: the same statements; the
  result also carries the stripped text under \<^verbatim>\<open>'raw'\<close>.
\<close>

record raw_message = message +
  msg_raw :: string

definition standalone_parse_message :: "rounding \<Rightarrow> string \<Rightarrow> raw_message option" where
  "standalone_parse_message rnd raw =
     (let m = strip_frame raw;
          (mtype, data_str) = split_kind m;
          data = (if data_str \<noteq> [] then fold (parse_param rnd) (str_split PARAM_SEP data_str) []
                  else [])
      in Some \<lparr>msg_type = mtype, msg_data = data, msg_raw = m\<rparr>)"

text \<open>
  \<^verbatim>\<open>STM32Simulator._parse_message\<close> of \<^verbatim>\<open>stm32_simulator.py\<close>: its loop body has no
  \<^verbatim>\<open>else\<close> branch, so a parameter without \<^verbatim>\<open>=\<close> leaves the payload as it is.
\<close>

definition sim_parse_param :: "rounding \<Rightarrow> string \<Rightarrow> pydict \<Rightarrow> pydict" where
  "sim_parse_param rnd param data =
     (if VALUE_SEP \<in> set param then
        (let (key, v) = split_once VALUE_SEP param
         in AList.update key (typed_value rnd v) data)
      else data)"

definition sim_parse_message :: "rounding \<Rightarrow> string \<Rightarrow> message option" where
  "sim_parse_message rnd raw =
     (let (mtype, data_str) = split_kind (strip_frame raw);
          data = (if data_str \<noteq> [] then fold (sim_parse_param rnd) (str_split PARAM_SEP data_str) []
                  else [])
      in Some \<lparr>msg_type = mtype, msg_data = data\<rparr>)"

text \<open>
  \<^verbatim>\<open>EVProtocol._build_message\<close>. \<^verbatim>\<open>params\<close> may be \<^verbatim>\<open>None\<close>; \<^verbatim>\<open>if params\<close> is false
  for \<^verbatim>\<open>None\<close> and for the empty dictionary.
\<close>

definition param_str :: "(pyfloat \<Rightarrow> string) \<Rightarrow> string \<times> pyval \<Rightarrow> string" where
  "param_str fstr kv = fst kv @ VALUE_SEP # py_str fstr (snd kv)"

definition build_message :: "(pyfloat \<Rightarrow> string) \<Rightarrow> string \<Rightarrow> pydict option \<Rightarrow> string" where
  "build_message fstr mtype params =
     (let message = START_CHAR # mtype;
          message = (case params of
                       None \<Rightarrow> message
                     | Some ps \<Rightarrow>
                         if ps \<noteq> [] then
                           message @ SEPARATOR # str_join [PARAM_SEP] (map (param_str fstr) ps)
                         else message)
      in message @ [END_CHAR])"

datatype MessageType =
    SET_MAX_CURRENT | SET_CURRENT_LIMIT | EMERGENCY_STOP | RESET_FAULT
  | GET_TELEMETRY | GET_TEMP | GET_STATUS | GET_FAULTS
  | DATA | ACK | NACK | FAULT

fun mt_value :: "MessageType \<Rightarrow> string" where
  "mt_value SET_MAX_CURRENT = ''SET_MAX_CURRENT''"
| "mt_value SET_CURRENT_LIMIT = ''SET_CURRENT_LIMIT''"
| "mt_value EMERGENCY_STOP = ''ESTOP''"
| "mt_value RESET_FAULT = ''RESET_FAULT''"
| "mt_value GET_TELEMETRY = ''GET_TELEM''"
| "mt_value GET_TEMP = ''GET_TEMP''"
| "mt_value GET_STATUS = ''GET_STATUS''"
| "mt_value GET_FAULTS = ''GET_FAULTS''"
| "mt_value DATA = ''DATA''"
| "mt_value ACK = ''ACK''"
| "mt_value NACK = ''NACK''"
| "mt_value FAULT = ''FAULT''"

section \<open>Waiting for an acknowledgement\<close>

text \<open>
  \<^verbatim>\<open>EVProtocol.wait_for_ack\<close>. The receive thread fills the inbox while the caller polls
  it, so the model takes what the caller observes: for each turn of the loop, the clock
  reading of the loop test and the result of \<^verbatim>\<open>get_message\<close> (\<open>None\<close> when the inbox
  stayed empty for 0.1 s). Clock readings are real numbers. The result is \<open>None\<close> when the
  observations end before the loop has returned.
\<close>

type_synonym poll = "real \<times> message option"

definition ack_matches :: "string \<Rightarrow> message \<Rightarrow> bool" where
  "ack_matches command msg \<longleftrightarrow>
     msg_type msg = ''ACK'' \<and>
     (dict_has (msg_data msg) command \<or> py_eq (dict_get (msg_data msg) ''ACK'' VNone) (VStr command))"

fun wait_for_ack :: "string \<Rightarrow> real \<Rightarrow> real \<Rightarrow> poll list \<Rightarrow> bool option" where
  "wait_for_ack command timeout start_time [] = None"
| "wait_for_ack command timeout start_time ((now, got) # polls) =
     (if now - start_time < timeout then
        (case got of
           Some msg \<Rightarrow>
             if ack_matches command msg then Some True
             else wait_for_ack command timeout start_time polls
         | None \<Rightarrow> wait_for_ack command timeout start_time polls)
      else Some False)"

section \<open>The controller\<close>

text \<open>
  The state of \<^verbatim>\<open>EVController\<close> that its handlers and commands read and write: telemetry,
  fault list, connection flag, the configuration dictionary of \<^verbatim>\<open>ConfigManager\<close>, the
  logger's switch with the rows it has written (without their time stamp), and the frames
  written to the serial port.
\<close>

record controller =
  telemetry :: pydict
  faults :: "pyval list"
  connected :: bool
  config :: pydict
  logging_enabled :: bool
  log_rows :: "pyval list list"
  serial_tx :: "string list"

text \<open>
  \<^verbatim>\<open>EVProtocol.send_message\<close>: \<open>port_ok\<close> tells whether \<^verbatim>\<open>serial.write\<close> and \<^verbatim>\<open>flush\<close>
  succeed; when they raise, the handler returns \<^verbatim>\<open>False\<close> and nothing counts as sent.
\<close>

definition send_message ::
  "(pyfloat \<Rightarrow> string) \<Rightarrow> bool \<Rightarrow> MessageType \<Rightarrow> pydict option \<Rightarrow> controller \<Rightarrow> bool \<times> controller" where
  "send_message fstr port_ok mt params s =
     (let message = build_message fstr (mt_value mt) params
      in if port_ok then (True, s\<lparr>serial_tx := serial_tx s @ [message]\<rparr>) else (False, s))"

definition emergency_stop :: "(pyfloat \<Rightarrow> string) \<Rightarrow> bool \<Rightarrow> controller \<Rightarrow> bool \<times> controller" where
  "emergency_stop fstr port_ok s = send_message fstr port_ok EMERGENCY_STOP None s"

text \<open>\<^verbatim>\<open>DataLogger.log_data\<close>, called with the telemetry and the throttle.\<close>

definition log_data :: "pydict \<Rightarrow> pyval \<Rightarrow> controller \<Rightarrow> controller" where
  "log_data telem throttle s =
     (if logging_enabled s then
        s\<lparr>log_rows := log_rows s @
            [[dict_get telem ''RPM'' (VInt 0), dict_get telem ''TEMP'' (VInt 0),
              dict_get telem ''CURRENT'' (VInt 0), dict_get telem ''VOLTAGE'' (VInt 0),
              dict_get telem ''SOC'' (VInt 0), throttle]]\<rparr>
      else s)"

text \<open>
  \<^verbatim>\<open>EVController._check_safety_conditions\<close>. A comparison between text and a number raises
  \<^verbatim>\<open>TypeError\<close>; the state keeps what was written before the raise, and
  \<^verbatim>\<open>_trigger_callback\<close> catches the exception.
\<close>

definition add_fault :: "pyval \<Rightarrow> controller \<Rightarrow> controller" where
  "add_fault f s = s\<lparr>faults := faults s @ [f]\<rparr>"

definition check_safety_conditions :: "controller \<Rightarrow> error option \<times> controller" where
  "check_safety_conditions s =
     (let temp = dict_get (telemetry s) ''TEMP'' (VInt 0);
          soc = dict_get (telemetry s) ''SOC'' (VInt 100)
      in case py_gt temp (dict_get (config s) ''overheat_threshold'' (VInt 80)) of
           Inl e \<Rightarrow> (Some e, s)
         | Inr hot \<Rightarrow>
             (let s1 = (if hot \<and> \<not> py_in (VStr ''OVERHEAT'') (faults s)
                        then add_fault (VStr ''OVERHEAT'') s else s)
              in case py_lt soc (dict_get (config s1) ''low_battery_threshold'' (VInt 15)) of
                   Inl e \<Rightarrow> (Some e, s1)
                 | Inr low \<Rightarrow>
                     (None, if low \<and> \<not> py_in (VStr ''LOW_BATTERY'') (faults s1)
                            then add_fault (VStr ''LOW_BATTERY'') s1 else s1)))"

text \<open>\<^verbatim>\<open>EVController._handle_telemetry\<close>.\<close>

definition handle_telemetry :: "message \<Rightarrow> controller \<Rightarrow> error option \<times> controller" where
  "handle_telemetry msg s =
     (let s1 = s\<lparr>telemetry := dict_update (telemetry s) (msg_data msg)\<rparr>;
          s2 = s1\<lparr>connected := True\<rparr>;
          s3 = (if logging_enabled s2
                then log_data (telemetry s2) (dict_get (telemetry s2) ''THROTTLE'' (VInt 0)) s2
                else s2)
      in check_safety_conditions s3)"

text \<open>\<^verbatim>\<open>EVController._handle_fault\<close>.\<close>

definition handle_fault ::
  "(pyfloat \<Rightarrow> string) \<Rightarrow> bool \<Rightarrow> message \<Rightarrow> controller \<Rightarrow> controller" where
  "handle_fault fstr port_ok msg s =
     (let fault = dict_get (msg_data msg) ''FAULT'' (VStr ''UNKNOWN'')
      in if \<not> py_in fault (faults s) then
           (let s1 = add_fault fault s
            in if truthy (dict_get (config s1) ''emergency_stop_on_fault'' VNone)
               then snd (emergency_stop fstr port_ok s1)
               else s1)
         else s)"

text \<open>
  The commands that wait for an acknowledgement. Each takes the clock reading at the
  entry of \<^verbatim>\<open>wait_for_ack\<close> and the polls observed from there; the result is \<open>None\<close> when
  \<^verbatim>\<open>wait_for_ack\<close> has not returned within them.
\<close>

definition set_max_throttle ::
  "(pyfloat \<Rightarrow> string) \<Rightarrow> bool \<Rightarrow> real \<Rightarrow> poll list \<Rightarrow> int \<Rightarrow> controller \<Rightarrow> (bool \<times> controller) option" where
  "set_max_throttle fstr port_ok start_time polls max_throttle s =
     (let max_throttle = max 0 (min 100 max_throttle);
          (success, s1) = send_message fstr port_ok SET_MAX_CURRENT
                            (Some [(''MAX_THROTTLE'', VInt max_throttle)]) s
      in if success then
           (case wait_for_ack ''SET_MAX_CURRENT'' (1 / 2) start_time polls of
              None \<Rightarrow> None
            | Some acked \<Rightarrow>
                if acked then
                  Some (True, s1\<lparr>config := AList.update ''max_throttle'' (VInt max_throttle) (config s1)\<rparr>)
                else Some (False, s1))
         else Some (False, s1))"

definition set_current_limit ::
  "(pyfloat \<Rightarrow> string) \<Rightarrow> bool \<Rightarrow> real \<Rightarrow> poll list \<Rightarrow> pyval \<Rightarrow> controller \<Rightarrow> (bool \<times> controller) option" where
  "set_current_limit fstr port_ok start_time polls current s =
     (let (success, s1) = send_message fstr port_ok SET_CURRENT_LIMIT (Some [(''LIMIT'', current)]) s
      in if success then
           (case wait_for_ack ''SET_CURRENT_LIMIT'' (1 / 2) start_time polls of
              None \<Rightarrow> None
            | Some acked \<Rightarrow>
                if acked then
                  Some (True, s1\<lparr>config := AList.update ''current_limit'' current (config s1)\<rparr>)
                else Some (False, s1))
         else Some (False, s1))"

definition reset_faults ::
  "(pyfloat \<Rightarrow> string) \<Rightarrow> bool \<Rightarrow> real \<Rightarrow> poll list \<Rightarrow> controller \<Rightarrow> (bool \<times> controller) option" where
  "reset_faults fstr port_ok start_time polls s =
     (let (success, s1) = send_message fstr port_ok RESET_FAULT None s
      in if success then
           (case wait_for_ack ''RESET_FAULT'' (1 / 2) start_time polls of
              None \<Rightarrow> None
            | Some acked \<Rightarrow>
                if acked then Some (True, s1\<lparr>faults := []\<rparr>) else Some (False, s1))
         else Some (False, s1))"

text \<open>The state that \<^verbatim>\<open>EVController.__init__\<close> sets up, for a loaded configuration.\<close>

definition init_controller :: "pydict \<Rightarrow> controller" where
  "init_controller cfg =
     \<lparr>telemetry = [], faults = [], connected = False, config = cfg,
      logging_enabled = False, log_rows = [], serial_tx = []\<rparr>"

text \<open>The configuration that \<^verbatim>\<open>ConfigManager.load_config\<close> starts from.\<close>

definition default_config :: pydict where
  "default_config =
     [(''max_current'', VFloat (Finite 50)), (''current_limit'', VFloat (Finite 50)),
      (''max_throttle'', VInt 100), (''telemetry_interval'', VFloat (Finite (1 / 2))),
      (''overheat_threshold'', VFloat (Finite 80)), (''low_battery_threshold'', VFloat (Finite 15)),
      (''emergency_stop_on_fault'', VBool True)]"

text \<open>
  A rounding to instantiate \<open>rnd\<close> with: the decimal itself. It agrees with \<^verbatim>\<open>float()\<close>
  wherever the decimal is a binary floating-point number, as \<open>85.0\<close> is.
\<close>

definition decimal_value :: rounding where
  "decimal_value neg m e =
     Finite ((if neg then - 1 else 1) *
             (if 0 \<le> e then real m * 10 ^ nat e else real m / 10 ^ nat (- e)))"

section \<open>Notions used to state the properties\<close>

text \<open>
  The states the controller can be in: the initial one, and what the message handlers,
  the commands, the periodic telemetry request and the logging switch make of a state
  that can be reached.
\<close>

inductive reachable :: "(pyfloat \<Rightarrow> string) \<Rightarrow> controller \<Rightarrow> bool" for fstr where
  r_init: "reachable fstr (init_controller cfg)"
| r_fault: "reachable fstr s \<Longrightarrow> reachable fstr (handle_fault fstr port_ok msg s)"
| r_telemetry: "reachable fstr s \<Longrightarrow> reachable fstr (snd (handle_telemetry msg s))"
| r_safety: "reachable fstr s \<Longrightarrow> reachable fstr (snd (check_safety_conditions s))"
| r_reset: "reachable fstr s \<Longrightarrow> reset_faults fstr port_ok t0 polls s = Some (ok, s') \<Longrightarrow>
            reachable fstr s'"
| r_throttle: "reachable fstr s \<Longrightarrow> set_max_throttle fstr port_ok t0 polls n s = Some (ok, s') \<Longrightarrow>
               reachable fstr s'"
| r_limit: "reachable fstr s \<Longrightarrow> set_current_limit fstr port_ok t0 polls v s = Some (ok, s') \<Longrightarrow>
            reachable fstr s'"
| r_estop: "reachable fstr s \<Longrightarrow> reachable fstr (snd (emergency_stop fstr port_ok s))"
| r_poll: "reachable fstr s \<Longrightarrow> reachable fstr (snd (send_message fstr port_ok GET_TELEMETRY None s))"
| r_logging: "reachable fstr s \<Longrightarrow> reachable fstr (s\<lparr>logging_enabled := b\<rparr>)"

text \<open>
  No two entries of a list are equal in Python's sense, and \<^verbatim>\<open>xs.count(v)\<close>. Python takes
  \<^verbatim>\<open>1\<close>, \<^verbatim>\<open>1.0\<close> and \<^verbatim>\<open>True\<close> for equal, so this asks more than distinct entries.
\<close>

fun py_distinct :: "pyval list \<Rightarrow> bool" where
  "py_distinct [] = True"
| "py_distinct (x # xs) = (\<not> py_in x xs \<and> py_distinct xs)"

definition py_count :: "pyval \<Rightarrow> pyval list \<Rightarrow> nat" where
  "py_count v xs = length (filter (py_eq v) xs)"

text \<open>The observed polls with every negative acknowledgement replaced by an empty poll.\<close>

definition drop_nacks :: "poll list \<Rightarrow> poll list" where
  "drop_nacks polls =
     map (\<lambda>(now, got). (now, case got of
                                None \<Rightarrow> None
                              | Some m \<Rightarrow> if msg_type m = ''NACK'' then None else Some m)) polls"

text \<open>Polls in which a negative acknowledgement arrives and the time then runs out.\<close>

definition nack_polls :: "poll list" where
  "nack_polls =
     [(1 / 10, Some \<lparr>msg_type = ''NACK'', msg_data = [(''CMD'', VStr ''SET_MAX_CURRENT'')]\<rparr>),
      (3 / 10, None), (6 / 10, None)]"

text \<open>The texts of a list of reads, each decoded on its own.\<close>

fun decode_all :: "byte list list \<Rightarrow> string list option" where
  "decode_all [] = Some []"
| "decode_all (raw # later) =
     (case utf8_ignore raw of
        None \<Rightarrow> None
      | Some data \<Rightarrow> map_option ((#) data) (decode_all later))"



section \<open>Properties of frame extraction\<close>

lemma find_idx_append:
  "find_idx c a = Some i \<Longrightarrow> find_idx c (a @ b) = Some i"
  by (induction a arbitrary: i) (auto split: if_splits)

lemma str_find_found:
  assumes "0 \<le> str_find a c k"
  shows "str_find (a @ b) c k = str_find a c k" and "nat (str_find a c k) < length a"
proof -
  from assms obtain i where i: "find_idx c (drop k a) = Some i"
    by (auto simp: str_find_def split: option.splits)
  then have lt: "i < length a - k" using find_idx_bound [OF i] by simp
  then have "k < length a" by simp
  then show "str_find (a @ b) c k = str_find a c k"
    using i by (simp add: str_find_def find_idx_append)
  show "nat (str_find a c k) < length a"
    using i lt by (simp add: str_find_def)
qed

text \<open>
  Scanning a buffer with more text behind it: the frames of the buffer alone come first,
  then the scan goes on from what the buffer alone leaves.
\<close>

lemma receive_scan_append:
  "receive_scan (a @ b) =
     (let (f1, r1) = receive_scan a; (f2, r2) = receive_scan (r1 @ b) in (f1 @ f2, r2))"
proof (induction a rule: receive_scan.induct)
  case (1 buffer)
  define start where "start = str_find buffer START_CHAR 0"
  define endp where "endp = str_find buffer END_CHAR (nat start)"
  show ?case
  proof (cases "START_CHAR \<in> set buffer \<and> END_CHAR \<in> set buffer \<and> endp > start")
    case True
    then have s0: "0 \<le> start" by (simp add: start_def str_find_mem)
    then have e0: "0 \<le> endp" using True by simp
    have s': "str_find (buffer @ b) START_CHAR 0 = start"
      using s0 str_find_found(1) [of buffer START_CHAR 0 b] by (simp add: start_def)
    have e': "str_find (buffer @ b) END_CHAR (nat start) = endp"
      using e0 str_find_found(1) [of buffer END_CHAR "nat start" b] by (simp add: endp_def)
    have elt: "nat endp < length buffer"
      using e0 str_find_found(2) [of buffer END_CHAR "nat start"] by (simp add: endp_def)
    have sl: "slice (buffer @ b) (nat start) (nat (endp + 1)) =
              slice buffer (nat start) (nat (endp + 1))"
      using elt e0 by (simp add: slice_def nat_add_distrib)
    have dr: "slice_from (buffer @ b) (nat (endp + 1)) = slice_from buffer (nat (endp + 1)) @ b"
      using elt e0 by (simp add: slice_from_def nat_add_distrib)
    have IH: "receive_scan (slice_from buffer (nat (endp + 1)) @ b) =
        (let (f1, r1) = receive_scan (slice_from buffer (nat (endp + 1)));
             (f2, r2) = receive_scan (r1 @ b) in (f1 @ f2, r2))"
      using "1.IH" [OF _ start_def endp_def _ refl refl] True by simp
    have L: "receive_scan (buffer @ b) =
        (let (msgs, buffer') = receive_scan (slice_from buffer (nat (endp + 1)) @ b)
         in (slice buffer (nat start) (nat (endp + 1)) # msgs, buffer'))"
      using True by (subst receive_scan.simps) (simp add: s' e' sl dr Let_def)
    have R: "receive_scan buffer =
        (let (msgs, buffer') = receive_scan (slice_from buffer (nat (endp + 1)))
         in (slice buffer (nat start) (nat (endp + 1)) # msgs, buffer'))"
      using True
      by (subst receive_scan.simps) (simp add: start_def [symmetric] endp_def [symmetric] Let_def)
    show ?thesis
      unfolding L R IH by (simp add: Let_def split: prod.splits)
  next
    case False
    then have "receive_scan buffer = ([], buffer)"
      by (subst receive_scan.simps) (auto simp: start_def endp_def Let_def)
    then show ?thesis by simp
  qed
qed

text \<open>The buffer a scan leaves holds no complete frame: scanning it again cuts nothing.\<close>

lemma receive_scan_idem:
  "receive_scan a = (fs, r) \<Longrightarrow> receive_scan r = ([], r)"
proof (induction a arbitrary: fs rule: receive_scan.induct)
  case (1 buffer)
  show ?case
    using "1.prems" "1.IH"
    apply (subst (asm) receive_scan.simps)
    apply (auto simp: Let_def split: if_splits prod.splits)
    apply (subst receive_scan.simps, simp add: Let_def)+
    done
qed

lemma rx_chunks_eq:
  "receive_scan buffer = ([], buffer) \<Longrightarrow>
   rx_chunks buffer chunks = receive_scan (buffer @ concat chunks)"
proof (induction chunks arbitrary: buffer)
  case Nil
  then show ?case by simp
next
  case (Cons d ds)
  obtain f1 r1 where a: "receive_scan (buffer @ d) = (f1, r1)"
    by (cases "receive_scan (buffer @ d)")
  have idem: "receive_scan r1 = ([], r1)" using receive_scan_idem [OF a] .
  have "receive_scan ((buffer @ d) @ concat ds) =
     (let (f1, r1) = receive_scan (buffer @ d);
          (f2, r2) = receive_scan (r1 @ concat ds) in (f1 @ f2, r2))"
    by (rule receive_scan_append)
  then show ?case using Cons.IH [OF idem] a by (simp add: rx_chunk_def)
qed

text \<open>
  The receive loop starts with an empty buffer. Whatever the chunks in which a text is
  appended, the raw frames cut out over all passes, in order, and the buffer left at the
  end are those of one scan of the whole text. A frame cut by a chunk boundary stays in
  the buffer and comes out when the chunk that closes it arrives. Text before a frame is
  only dropped together with the frame that is cut out.
\<close>

lemma rx_chunks_single_chunk: "rx_chunks [] chunks = receive_scan (concat chunks)"
proof -
  have "receive_scan [] = ([], [])"
    by (subst receive_scan.simps) simp
  then show ?thesis
    using rx_chunks_eq [of "[]" chunks] by simp
qed

lemma rx_reads_decoded:
  "rx_reads buffer reads = map_option (rx_chunks buffer) (decode_all reads)"
  by (induction reads arbitrary: buffer)
     (auto simp: rx_read_def split: option.splits prod.splits)

lemma utf8_ignore_ascii: "\<forall>b\<in>set raw. byte_val b < 0x80 \<Longrightarrow> utf8_ignore raw = Some raw"
  by (induction raw) simp_all

lemma decode_all_ascii:
  "(\<forall>raw\<in>set reads. \<forall>b\<in>set raw. byte_val b < 0x80) \<longrightarrow>
   decode_all reads = Some reads \<and> utf8_ignore (concat reads) = Some (concat reads)"
proof (intro impI conjI)
  assume a: "\<forall>raw\<in>set reads. \<forall>b\<in>set raw. byte_val b < 0x80"
  then show "decode_all reads = Some reads"
    by (induction reads) (simp_all add: utf8_ignore_ascii)
  show "utf8_ignore (concat reads) = Some (concat reads)"
    using a by (intro utf8_ignore_ascii) auto
qed

text \<open>
  C1 does not hold for every byte sequence and every split. Each read is decoded on its
  own, and a character whose bytes lie in two reads is dropped by both: the bytes of
  \<^verbatim>\<open><A:\<close>, 0xC3, 0xA9, \<^verbatim>\<open>>\<close> read as one chunk give the frame with the character U+00E9 in
  it; read in two chunks that part after 0xC3, they give the frame \<^verbatim>\<open><A:>\<close>.
\<close>

theorem rx_reads_split_character:
  "rx_reads [] [''<A:'' @ [CHR 0xC3], [CHR 0xA9] @ ''>''] = Some ([''<A:>''], []) \<and>
   rx_reads [] [concat [''<A:'' @ [CHR 0xC3], [CHR 0xA9] @ ''>'']] =
     Some ([''<A:'' @ [CHR 0xE9] @ ''>''], [])"
  by code_simp

text \<open>
  C1, amended. For every byte sequence and every split of it into reads such that the
  texts decoded from the reads make up the text decoded from the whole sequence, as they
  do for ASCII bytes, the frames cut out over the reads and the buffer left are those of
  the sequence read as a single chunk: one scan of the whole text. An incomplete
  trailing frame stays in the buffer for the next read.
\<close>

theorem rx_reads_single_read:
  assumes "decode_all reads = Some parts"
    and "utf8_ignore (concat reads) = Some (concat parts)"
  shows "rx_reads [] reads = rx_reads [] [concat reads] \<and>
         rx_reads [] reads = Some (receive_scan (concat parts))"
proof -
  have 1: "rx_reads [] reads = Some (receive_scan (concat parts))"
    using assms(1) by (simp add: rx_reads_decoded rx_chunks_single_chunk)
  have "rx_reads [] [concat reads] = Some (rx_chunks [] [concat parts])"
    using assms(2) by (simp add: rx_reads_decoded)
  then have "rx_reads [] [concat reads] = Some (receive_scan (concat parts))"
    using rx_chunks_single_chunk [of "[concat parts]"] by simp
  with 1 show ?thesis by simp
qed

text \<open>
  C1, amended, at a concrete input: a text in three reads that cut both of its frames.
\<close>

theorem rx_reads_single_read_witness:
  "rx_reads [] [''a>b<X'', '':1>c<Y'', ''>>''] = rx_reads [] [''a>b<X:1>c<Y>>''] \<and>
   rx_reads [] [''a>b<X'', '':1>c<Y'', ''>>''] = Some ([''<X:1>'', ''<Y>''], ''>'')"
proof -
  have d: "decode_all [''a>b<X'', '':1>c<Y'', ''>>''] = Some [''a>b<X'', '':1>c<Y'', ''>>'']"
    by code_simp
  have u: "utf8_ignore (concat [''a>b<X'', '':1>c<Y'', ''>>'']) =
             Some (concat [''a>b<X'', '':1>c<Y'', ''>>''])"
    by code_simp
  have s: "receive_scan ''a>b<X:1>c<Y>>'' = ([''<X:1>'', ''<Y>''], ''>'')"
    by code_simp
  have c: "concat [''a>b<X'', '':1>c<Y'', ''>>''] = ''a>b<X:1>c<Y>>''"
    by simp
  from rx_reads_single_read [OF d u] show ?thesis
    unfolding c s .
qed


section \<open>Properties of the fault list\<close>

lemma py_eq_refl: "py_eq a a"
  by (cases a) (simp_all add: py_eq_def)

lemma py_eq_sym: "py_eq a b \<Longrightarrow> py_eq b a"
  by (auto simp: py_eq_def split: option.splits)

lemma py_eq_trans: "py_eq a b \<Longrightarrow> py_eq b c \<Longrightarrow> py_eq a c"
  by (auto simp: py_eq_def split: option.splits)

lemma py_in_iff: "py_in v xs \<longleftrightarrow> (\<exists>x\<in>set xs. py_eq v x)"
  by (simp add: py_in_def list_ex_iff)

lemma py_in_mem: "v \<in> set xs \<Longrightarrow> py_in v xs"
  using py_eq_refl by (auto simp: py_in_iff)

lemma py_eq_VStr: "py_eq (VStr a) x \<longleftrightarrow> x = VStr a"
  by (cases x) (auto simp: py_eq_def)

lemma py_in_VStr: "py_in (VStr a) xs \<longleftrightarrow> VStr a \<in> set xs"
  by (auto simp: py_in_iff py_eq_VStr)

lemma py_distinct_snoc:
  "py_distinct (xs @ [v]) \<longleftrightarrow> py_distinct xs \<and> \<not> py_in v xs"
  by (induction xs) (auto simp: py_in_iff dest: py_eq_sym)

lemma py_distinct_distinct: "py_distinct xs \<Longrightarrow> distinct xs"
  by (induction xs) (auto dest: py_in_mem)

lemma py_count_zero: "\<not> py_in v xs \<Longrightarrow> py_count v xs = 0"
  by (induction xs) (auto simp: py_count_def py_in_iff)

lemma py_count_one: "py_distinct xs \<Longrightarrow> py_in v xs \<Longrightarrow> py_count v xs = 1"
proof (induction xs)
  case Nil then show ?case by (simp add: py_in_iff)
next
  case (Cons x xs)
  show ?case
  proof (cases "py_eq v x")
    case True
    have "\<not> py_in v xs"
    proof
      assume "py_in v xs"
      then obtain y where "y \<in> set xs" "py_eq v y" by (auto simp: py_in_iff)
      then have "py_eq x y" using True py_eq_sym py_eq_trans by blast
      then show False using Cons.prems(1) \<open>y \<in> set xs\<close> by (auto simp: py_in_iff)
    qed
    then show ?thesis using True py_count_zero [of v xs] by (simp add: py_count_def)
  next
    case False
    then have "py_in v xs" using Cons.prems(2) by (auto simp: py_in_iff)
    then show ?thesis using Cons False by (simp add: py_count_def)
  qed
qed

lemma faults_send_message: "faults (snd (send_message fstr p mt ps s)) = faults s"
  by (simp add: send_message_def Let_def)

lemma faults_handle_fault:
  "faults (handle_fault fstr p msg s) =
     (let f = dict_get (msg_data msg) ''FAULT'' (VStr ''UNKNOWN'')
      in if py_in f (faults s) then faults s else faults s @ [f])"
  by (simp add: handle_fault_def Let_def add_fault_def emergency_stop_def faults_send_message)

lemma py_in_snoc: "py_in v (xs @ [x]) \<longleftrightarrow> py_in v xs \<or> py_eq v x"
  by (auto simp: py_in_iff)

lemma py_distinct_snoc2:
  "py_distinct (xs @ [a, b]) \<longleftrightarrow> py_distinct xs \<and> \<not> py_in a xs \<and> \<not> py_in b xs \<and> \<not> py_eq b a"
  using py_distinct_snoc [of "xs @ [a]" b] by (auto simp: py_distinct_snoc py_in_snoc)

lemma py_distinct_handle_fault:
  "py_distinct (faults s) \<Longrightarrow> py_distinct (faults (handle_fault fstr p msg s))"
  by (simp add: faults_handle_fault Let_def py_distinct_snoc)

lemma py_distinct_check_safety:
  "py_distinct (faults s) \<Longrightarrow> py_distinct (faults (snd (check_safety_conditions s)))"
  by (auto simp: check_safety_conditions_def Let_def add_fault_def py_distinct_snoc
                 py_distinct_snoc2 py_in_VStr py_eq_VStr split: sum.splits)

lemma py_distinct_handle_telemetry:
  "py_distinct (faults s) \<Longrightarrow> py_distinct (faults (snd (handle_telemetry msg s)))"
  unfolding handle_telemetry_def Let_def
  by (rule py_distinct_check_safety) (simp add: log_data_def)

lemma reachable_py_distinct: "reachable fstr s \<Longrightarrow> py_distinct (faults s)"
proof (induction rule: reachable.induct)
  case (r_init cfg)
  then show ?case by (simp add: init_controller_def)
next
  case (r_fault s port_ok msg)
  from r_fault.IH show ?case by (rule py_distinct_handle_fault)
next
  case (r_telemetry s msg)
  from r_telemetry.IH show ?case by (rule py_distinct_handle_telemetry)
next
  case (r_safety s)
  from r_safety.IH show ?case by (rule py_distinct_check_safety)
next
  case (r_reset s port_ok t0 polls ok s')
  then show ?case
    by (auto simp: reset_faults_def send_message_def Let_def split: if_splits option.splits)
next
  case (r_throttle s port_ok t0 polls n ok s')
  then show ?case
    by (auto simp: set_max_throttle_def send_message_def Let_def split: if_splits option.splits)
next
  case (r_limit s port_ok t0 polls v ok s')
  then show ?case
    by (auto simp: set_current_limit_def send_message_def Let_def split: if_splits option.splits)
next
  case (r_estop s port_ok)
  then show ?case by (simp add: emergency_stop_def faults_send_message)
next
  case (r_poll s port_ok)
  then show ?case by (simp add: faults_send_message)
next
  case (r_logging s b)
  then show ?case by simp
qed

text \<open>
  C7. In every state the controller can reach from its initial state, the fault list has
  no duplicate: its entries are pairwise distinct, also in Python's sense of equality.
  Handling the same fault message twice, from such a state, leaves the fault it names
  exactly once in the list.
\<close>

theorem faults_never_duplicated:
  assumes "reachable fstr s"
  shows "distinct (faults s) \<and> py_distinct (faults s) \<and>
         py_count (dict_get (msg_data msg) ''FAULT'' (VStr ''UNKNOWN''))
           (faults (handle_fault fstr p2 msg (handle_fault fstr p1 msg s))) = 1"
proof -
  have d: "py_distinct (faults s)" using assms by (rule reachable_py_distinct)
  let ?f = "dict_get (msg_data msg) ''FAULT'' (VStr ''UNKNOWN'')"
  let ?s1 = "handle_fault fstr p1 msg s"
  have in1: "py_in ?f (faults ?s1)"
    by (auto simp: faults_handle_fault Let_def py_in_iff intro: py_eq_refl)
  have d1: "py_distinct (faults ?s1)" using d by (rule py_distinct_handle_fault)
  have "faults (handle_fault fstr p2 msg ?s1) = faults ?s1"
    using in1 by (simp add: faults_handle_fault [of fstr p2] Let_def)
  then have "py_count ?f (faults (handle_fault fstr p2 msg ?s1)) = 1"
    using py_count_one [OF d1 in1] by simp
  then show ?thesis using d py_distinct_distinct [OF d] by simp
qed

text \<open>
  C7, at a concrete input: from the initial state with the default configuration, the
  frame \<^verbatim>\<open><FAULT:FAULT=OVERCURRENT>\<close> handled twice.
\<close>

theorem faults_never_duplicated_witness:
  "reachable (\<lambda>f. []) (init_controller default_config) \<and>
   distinct (faults (init_controller default_config)) \<and>
   py_count (VStr ''OVERCURRENT'')
     (faults (handle_fault (\<lambda>f. []) True
                \<lparr>msg_type = ''FAULT'', msg_data = [(''FAULT'', VStr ''OVERCURRENT'')]\<rparr>
                (handle_fault (\<lambda>f. []) True
                   \<lparr>msg_type = ''FAULT'', msg_data = [(''FAULT'', VStr ''OVERCURRENT'')]\<rparr>
                   (init_controller default_config)))) = 1"
proof -
  have r: "reachable (\<lambda>f. []) (init_controller default_config)" by (rule r_init)
  show ?thesis
    using r faults_never_duplicated [OF r,
        of "\<lparr>msg_type = ''FAULT'', msg_data = [(''FAULT'', VStr ''OVERCURRENT'')]\<rparr>" True True]
    by (simp add: dict_get_def)
qed

section \<open>Properties of the acknowledgement wait\<close>

lemma wait_for_ack_True_iff:
  "wait_for_ack c T t0 polls = Some True \<longleftrightarrow>
     (\<exists>pre now m post. polls = pre @ (now, Some m) # post \<and> now - t0 < T \<and> ack_matches c m \<and>
        (\<forall>p\<in>set pre. fst p - t0 < T))"
proof (induction polls)
  case Nil
  then show ?case by simp
next
  case (Cons p polls)
  obtain now got where p: "p = (now, got)" by (cases p)
  show ?case
  proof (cases "now - t0 < T")
    case False
    have "\<not> (\<exists>pre now' m post. p # polls = pre @ (now', Some m) # post \<and> now' - t0 < T \<and>
            ack_matches c m \<and> (\<forall>q\<in>set pre. fst q - t0 < T))"
    proof
      assume "\<exists>pre now' m post. p # polls = pre @ (now', Some m) # post \<and> now' - t0 < T \<and>
            ack_matches c m \<and> (\<forall>q\<in>set pre. fst q - t0 < T)"
      then obtain pre now' m post where e: "p # polls = pre @ (now', Some m) # post"
        "now' - t0 < T" "\<forall>q\<in>set pre. fst q - t0 < T" by blast
      then show False using False p by (cases pre) auto
    qed
    then show ?thesis using False p by simp
  next
    case True
    show ?thesis
    proof (cases "\<exists>m. got = Some m \<and> ack_matches c m")
      case m: True
      then obtain m where "got = Some m" "ack_matches c m" by blast
      then have "p # polls = [] @ (now, Some m) # polls \<and> now - t0 < T \<and> ack_matches c m \<and>
          (\<forall>q\<in>set []. fst q - t0 < T)" using p True by simp
      then have "\<exists>pre now m post. p # polls = pre @ (now, Some m) # post \<and> now - t0 < T \<and>
          ack_matches c m \<and> (\<forall>q\<in>set pre. fst q - t0 < T)" by blast
      then show ?thesis using m True p by auto
    next
      case nm: False
      then have step: "wait_for_ack c T t0 (p # polls) = wait_for_ack c T t0 polls"
        using True p by (auto split: option.splits)
      have "(\<exists>pre now m post. p # polls = pre @ (now, Some m) # post \<and> now - t0 < T \<and>
          ack_matches c m \<and> (\<forall>q\<in>set pre. fst q - t0 < T)) \<longleftrightarrow>
          (\<exists>pre now m post. polls = pre @ (now, Some m) # post \<and> now - t0 < T \<and>
          ack_matches c m \<and> (\<forall>q\<in>set pre. fst q - t0 < T))" (is "?L \<longleftrightarrow> ?R")
      proof
        assume ?L
        then obtain pre now' m post where e: "p # polls = pre @ (now', Some m) # post"
          "now' - t0 < T" "ack_matches c m" "\<forall>q\<in>set pre. fst q - t0 < T" by blast
        show ?R
        proof (cases pre)
          case Nil
          then show ?thesis using e nm p by auto
        next
          case (Cons q pre')
          then have "polls = pre' @ (now', Some m) # post" "\<forall>q\<in>set pre'. fst q - t0 < T"
            using e by auto
          then show ?thesis using e by blast
        qed
      next
        assume ?R
        then obtain pre now' m post where e: "polls = pre @ (now', Some m) # post"
          "now' - t0 < T" "ack_matches c m" "\<forall>q\<in>set pre. fst q - t0 < T" by blast
        then have "p # polls = (p # pre) @ (now', Some m) # post" "\<forall>q\<in>set (p # pre). fst q - t0 < T"
          using True p by auto
        then show ?L using e by blast
      qed
      then show ?thesis using step Cons.IH by simp
    qed
  qed
qed

lemma wait_for_ack_False_iff:
  "wait_for_ack c T t0 polls = Some False \<longleftrightarrow>
     (\<exists>pre now got post. polls = pre @ (now, got) # post \<and> \<not> now - t0 < T \<and>
        (\<forall>p\<in>set pre. fst p - t0 < T \<and> (\<forall>m. snd p = Some m \<longrightarrow> \<not> ack_matches c m)))"
  (is "_ \<longleftrightarrow> ?P polls")
proof (induction polls)
  case Nil
  then show ?case by simp
next
  case (Cons p polls)
  obtain now got where p: "p = (now, got)" by (cases p)
  show ?case
  proof (cases "now - t0 < T")
    case False
    have "p # polls = [] @ (now, got) # polls \<and> \<not> now - t0 < T \<and>
        (\<forall>q\<in>set []. fst q - t0 < T \<and> (\<forall>m. snd q = Some m \<longrightarrow> \<not> ack_matches c m))"
      using False p by simp
    then have "?P (p # polls)" by blast
    then show ?thesis using False p by simp
  next
    case True
    show ?thesis
    proof (cases "\<exists>m. got = Some m \<and> ack_matches c m")
      case m: True
      have "\<not> ?P (p # polls)"
      proof
        assume "?P (p # polls)"
        then obtain pre now' got' post where e: "p # polls = pre @ (now', got') # post"
          "\<not> now' - t0 < T"
          "\<forall>q\<in>set pre. fst q - t0 < T \<and> (\<forall>m. snd q = Some m \<longrightarrow> \<not> ack_matches c m)" by blast
        show False
        proof (cases pre)
          case Nil
          then show ?thesis using e True p by auto
        next
          case (Cons q pre')
          then have "q = p" using e by simp
          then show ?thesis using e Cons m p by auto
        qed
      qed
      then show ?thesis using m True p by auto
    next
      case nm: False
      then have step: "wait_for_ack c T t0 (p # polls) = wait_for_ack c T t0 polls"
        using True p by (auto split: option.splits)
      have "?P (p # polls) \<longleftrightarrow> ?P polls"
      proof
        assume "?P (p # polls)"
        then obtain pre now' got' post where e: "p # polls = pre @ (now', got') # post"
          "\<not> now' - t0 < T"
          "\<forall>q\<in>set pre. fst q - t0 < T \<and> (\<forall>m. snd q = Some m \<longrightarrow> \<not> ack_matches c m)" by blast
        show "?P polls"
        proof (cases pre)
          case Nil
          then show ?thesis using e True p by auto
        next
          case (Cons q pre')
          then have "polls = pre' @ (now', got') # post"
            "\<forall>q\<in>set pre'. fst q - t0 < T \<and> (\<forall>m. snd q = Some m \<longrightarrow> \<not> ack_matches c m)"
            using e by auto
          then show ?thesis using e(2) by blast
        qed
      next
        assume "?P polls"
        then obtain pre now' got' post where e: "polls = pre @ (now', got') # post"
          "\<not> now' - t0 < T"
          "\<forall>q\<in>set pre. fst q - t0 < T \<and> (\<forall>m. snd q = Some m \<longrightarrow> \<not> ack_matches c m)" by blast
        then have "p # polls = (p # pre) @ (now', got') # post"
          "\<forall>q\<in>set (p # pre). fst q - t0 < T \<and> (\<forall>m. snd q = Some m \<longrightarrow> \<not> ack_matches c m)"
          using True p nm by auto
        then show "?P (p # polls)" using e(2) by blast
      qed
      then show ?thesis using step Cons.IH by simp
    qed
  qed
qed

lemma wait_for_ack_drop_nacks:
  "wait_for_ack c T t0 (drop_nacks polls) = wait_for_ack c T t0 polls"
  by (induction polls) (auto simp: drop_nacks_def ack_matches_def split: option.splits)

lemma ack_matches_iff:
  "ack_matches c m \<longleftrightarrow>
     msg_type m = ''ACK'' \<and> (c \<in> fst ` set (msg_data m) \<or> map_of (msg_data m) ''ACK'' = Some (VStr c))"
  by (auto simp: ack_matches_def dict_has_def dict_get_def py_eq_def split: option.splits)

text \<open>
  C2. \<^verbatim>\<open>wait_for_ack\<close> returns true exactly when, at a turn of its loop reached with every
  clock test passed, the polled message is of kind \<^verbatim>\<open>ACK\<close> and its payload has the
  command as a key or maps \<^verbatim>\<open>ACK\<close> to the command text. It returns false exactly when a
  clock test fails with no such message polled before; negative acknowledgements change
  nothing, the result is the same as if those polls had been empty. So the frame
  \<^verbatim>\<open><ACK:ACK=SET_MAX_CURRENT>\<close> polled before the timeout makes the wait for
  \<^verbatim>\<open>SET_MAX_CURRENT\<close> return true.
\<close>

theorem wait_for_ack_matching_ack:
  "(wait_for_ack c T t0 polls = Some True \<longleftrightarrow>
      (\<exists>pre now m post. polls = pre @ (now, Some m) # post \<and> now - t0 < T \<and>
         (\<forall>p\<in>set pre. fst p - t0 < T) \<and>
         msg_type m = ''ACK'' \<and>
         (c \<in> fst ` set (msg_data m) \<or> map_of (msg_data m) ''ACK'' = Some (VStr c)))) \<and>
   (wait_for_ack c T t0 polls = Some False \<longleftrightarrow>
      (\<exists>pre now got post. polls = pre @ (now, got) # post \<and> \<not> now - t0 < T \<and>
         (\<forall>p\<in>set pre. fst p - t0 < T \<and> (\<forall>m. snd p = Some m \<longrightarrow> \<not> ack_matches c m)))) \<and>
   wait_for_ack c T t0 (drop_nacks polls) = wait_for_ack c T t0 polls \<and>
   (now - t0 < T \<longrightarrow>
      wait_for_ack ''SET_MAX_CURRENT'' T t0
        ((now, parse_message rnd ''<ACK:ACK=SET_MAX_CURRENT>'') # polls) = Some True)"
proof (intro conjI)
  show "wait_for_ack c T t0 polls = Some True \<longleftrightarrow>
      (\<exists>pre now m post. polls = pre @ (now, Some m) # post \<and> now - t0 < T \<and>
         (\<forall>p\<in>set pre. fst p - t0 < T) \<and>
         msg_type m = ''ACK'' \<and>
         (c \<in> fst ` set (msg_data m) \<or> map_of (msg_data m) ''ACK'' = Some (VStr c)))"
    unfolding wait_for_ack_True_iff ack_matches_iff by blast
  show "wait_for_ack c T t0 polls = Some False \<longleftrightarrow>
      (\<exists>pre now got post. polls = pre @ (now, got) # post \<and> \<not> now - t0 < T \<and>
         (\<forall>p\<in>set pre. fst p - t0 < T \<and> (\<forall>m. snd p = Some m \<longrightarrow> \<not> ack_matches c m)))"
    by (rule wait_for_ack_False_iff)
  show "wait_for_ack c T t0 (drop_nacks polls) = wait_for_ack c T t0 polls"
    by (rule wait_for_ack_drop_nacks)
  have "parse_message rnd ''<ACK:ACK=SET_MAX_CURRENT>'' =
          Some \<lparr>msg_type = ''ACK'', msg_data = [(''ACK'', VStr ''SET_MAX_CURRENT'')]\<rparr>"
    by code_simp
  then show "now - t0 < T \<longrightarrow>
      wait_for_ack ''SET_MAX_CURRENT'' T t0
        ((now, parse_message rnd ''<ACK:ACK=SET_MAX_CURRENT>'') # polls) = Some True"
    by (simp add: ack_matches_iff)
qed

text \<open>
  C2, at concrete inputs: the acknowledgement frame polled 0.2 s into a wait of 0.5 s, and
  polls with a negative acknowledgement that run past the timeout.
\<close>

theorem wait_for_ack_matching_ack_witness:
  "wait_for_ack ''SET_MAX_CURRENT'' (1 / 2) 0
     [(1 / 10, None), (2 / 10, parse_message decimal_value ''<ACK:ACK=SET_MAX_CURRENT>'')] = Some True \<and>
   wait_for_ack ''SET_MAX_CURRENT'' (1 / 2) 0 nack_polls = Some False \<and>
   wait_for_ack ''SET_MAX_CURRENT'' (1 / 2) 0 (drop_nacks nack_polls) = Some False"
proof -
  have a: "(2 / 10 :: real) - 0 < 1 / 2" by simp
  have 1: "wait_for_ack ''SET_MAX_CURRENT'' (1 / 2) 0
     [(1 / 10, None), (2 / 10, parse_message decimal_value ''<ACK:ACK=SET_MAX_CURRENT>'')] = Some True"
    using wait_for_ack_matching_ack [of "''SET_MAX_CURRENT''" "1 / 2" 0 "[]" "2 / 10" decimal_value] a
    by simp
  have 2: "wait_for_ack ''SET_MAX_CURRENT'' (1 / 2) 0 nack_polls = Some False"
    by (simp add: nack_polls_def ack_matches_def dict_has_def)
  show ?thesis
    using 1 2 wait_for_ack_matching_ack [of "''SET_MAX_CURRENT''" "1 / 2" 0 nack_polls] by simp
qed

section \<open>Properties of the commands\<close>

text \<open>
  C8. When the clock test of \<^verbatim>\<open>wait_for_ack\<close> fails with no matching acknowledgement
  polled before, \<^verbatim>\<open>set_current_limit\<close> returns false and the configuration, the
  \<^verbatim>\<open>current_limit\<close> entry included, is as it was; the state differs only by the frame
  written to the port.
\<close>

theorem set_current_limit_timeout:
  assumes "polls = pre @ (now, got) # post"
    and "\<not> now - t0 < 1 / 2"
    and "\<forall>p\<in>set pre. fst p - t0 < 1 / 2 \<and>
           (\<forall>m. snd p = Some m \<longrightarrow> \<not> ack_matches ''SET_CURRENT_LIMIT'' m)"
  shows "\<exists>s'. set_current_limit fstr port_ok t0 polls current s = Some (False, s') \<and>
              config s' = config s \<and>
              s' = s\<lparr>serial_tx := serial_tx s @
                     (if port_ok
                      then [build_message fstr ''SET_CURRENT_LIMIT'' (Some [(''LIMIT'', current)])]
                      else [])\<rparr>"
proof -
  have "wait_for_ack ''SET_CURRENT_LIMIT'' (1 / 2) t0 polls = Some False"
    unfolding wait_for_ack_False_iff using assms by blast
  then show ?thesis
    by (simp add: set_current_limit_def send_message_def Let_def)
qed

text \<open>
  C8, at a concrete input: the limit 40 sent from the initial state, one empty poll at
  0.1 s and the clock at 0.6 s on the next test.
\<close>

theorem set_current_limit_timeout_witness:
  "\<exists>s'. set_current_limit (\<lambda>f. []) True 0 [(1 / 10, None), (6 / 10, None)] (VInt 40)
            (init_controller default_config) = Some (False, s') \<and>
        config s' = default_config \<and>
        serial_tx s' = [''<SET_CURRENT_LIMIT:LIMIT=40>'']"
proof -
  have "build_message (\<lambda>f. []) ''SET_CURRENT_LIMIT'' (Some [(''LIMIT'', VInt 40)]) =
          ''<SET_CURRENT_LIMIT:LIMIT=40>''"
    by code_simp
  then show ?thesis
    using set_current_limit_timeout [of "[(1 / 10, None), (6 / 10, None)]" "[(1 / 10, None)]"
            "6 / 10" None "[]" 0 "\<lambda>f. []" True "VInt 40" "init_controller default_config"]
    by (auto simp: init_controller_def)
qed

text \<open>
  C10. \<^verbatim>\<open>set_max_throttle(n)\<close> sends \<^verbatim>\<open>max(0, min(100, n))\<close>, a value between 0 and 100, as
  the \<^verbatim>\<open>MAX_THROTTLE\<close> parameter of a \<^verbatim>\<open>SET_MAX_CURRENT\<close> frame, and when it returns true
  the configuration holds that value, not \<open>n\<close>, under \<^verbatim>\<open>max_throttle\<close>.
\<close>

theorem set_max_throttle_clamps:
  assumes "set_max_throttle fstr port_ok t0 polls n s = Some (ok, s')"
  shows "0 \<le> max 0 (min 100 n) \<and> max 0 (min 100 n) \<le> 100 \<and>
         serial_tx s' = serial_tx s @
           (if port_ok
            then [''<SET_MAX_CURRENT:MAX_THROTTLE='' @ str_of_int (max 0 (min 100 n)) @ ''>'']
            else []) \<and>
         (ok \<longrightarrow> map_of (config s') ''max_throttle'' = Some (VInt (max 0 (min 100 n))))"
proof -
  have b: "build_message fstr ''SET_MAX_CURRENT'' (Some [(''MAX_THROTTLE'', VInt c)]) =
        ''<SET_MAX_CURRENT:MAX_THROTTLE='' @ str_of_int c @ ''>''" for c
    by (simp add: build_message_def param_str_def START_CHAR_def END_CHAR_def SEPARATOR_def
          VALUE_SEP_def)
  show ?thesis
    using assms
    by (auto simp: set_max_throttle_def send_message_def Let_def b AList.update_conv'
             split: if_splits option.splits)
qed

text \<open>
  C10, at a concrete input: the argument 250, acknowledged; 100 is sent and stored.
\<close>

theorem set_max_throttle_clamps_witness:
  "set_max_throttle (\<lambda>f. []) True 0
      [(1 / 10, Some \<lparr>msg_type = ''ACK'', msg_data = [(''ACK'', VStr ''SET_MAX_CURRENT'')]\<rparr>)]
      250 (init_controller default_config)
    = Some (True, (init_controller default_config)
         \<lparr>config := AList.update ''max_throttle'' (VInt 100) default_config,
          serial_tx := [''<SET_MAX_CURRENT:MAX_THROTTLE=100>'']\<rparr>) \<and>
   map_of (AList.update ''max_throttle'' (VInt 100) default_config) ''max_throttle'' = Some (VInt 100)"
proof -
  let ?s = "init_controller default_config"
  let ?polls = "[(1 / 10 :: real,
                  Some \<lparr>msg_type = ''ACK'', msg_data = [(''ACK'', VStr ''SET_MAX_CURRENT'')]\<rparr>)]"
  have s: "str_of_int 100 = ''100''" by code_simp
  have w: "wait_for_ack ''SET_MAX_CURRENT'' (1 / 2) 0 ?polls = Some True"
    by (simp add: ack_matches_iff)
  have r: "set_max_throttle (\<lambda>f. []) True 0 ?polls 250 ?s =
      Some (True, ?s\<lparr>config := AList.update ''max_throttle'' (VInt 100) default_config,
          serial_tx := [''<SET_MAX_CURRENT:MAX_THROTTLE=100>'']\<rparr>)"
    unfolding set_max_throttle_def send_message_def Let_def w
    by (simp add: init_controller_def build_message_def param_str_def START_CHAR_def END_CHAR_def
          SEPARATOR_def VALUE_SEP_def s)
  show ?thesis
    using set_max_throttle_clamps [OF r] r by simp
qed

section \<open>Properties of the message handlers\<close>

lemma parse_fault_frame:
  "parse_message rnd ''<FAULT:FAULT=OVERCURRENT>'' =
     Some \<lparr>msg_type = ''FAULT'', msg_data = [(''FAULT'', VStr ''OVERCURRENT'')]\<rparr>"
  by code_simp

lemma build_estop: "build_message fstr ''ESTOP'' None = ''<ESTOP>''"
  by (simp add: build_message_def START_CHAR_def END_CHAR_def)

text \<open>
  C4 does not hold for every state. With the flag enabled, let the fault frame arrive
  while the port fails: the fault is recorded and no frame goes out. When the same frame
  arrives again with the port working, the handler finds the fault in the list and sends
  nothing.
\<close>

theorem handle_fault_repeat_sends_nothing:
  "truthy (dict_get (config (handle_fault (\<lambda>f. []) False
              \<lparr>msg_type = ''FAULT'', msg_data = [(''FAULT'', VStr ''OVERCURRENT'')]\<rparr>
              (init_controller default_config))) ''emergency_stop_on_fault'' VNone) \<and>
   parse_message decimal_value ''<FAULT:FAULT=OVERCURRENT>'' =
     Some \<lparr>msg_type = ''FAULT'', msg_data = [(''FAULT'', VStr ''OVERCURRENT'')]\<rparr> \<and>
   serial_tx (handle_fault (\<lambda>f. []) True
       \<lparr>msg_type = ''FAULT'', msg_data = [(''FAULT'', VStr ''OVERCURRENT'')]\<rparr>
       (handle_fault (\<lambda>f. []) False
          \<lparr>msg_type = ''FAULT'', msg_data = [(''FAULT'', VStr ''OVERCURRENT'')]\<rparr>
          (init_controller default_config))) = []"
  by (simp add: parse_fault_frame handle_fault_def init_controller_def default_config_def
        dict_get_def py_in_def py_eq_def add_fault_def emergency_stop_def send_message_def Let_def)

text \<open>
  C4, amended. With the flag enabled, a fault message whose fault is not yet in the list
  adds it and, the port accepting the write, sends the frame \<^verbatim>\<open><ESTOP>\<close> within the
  handler; a fault message whose fault is in the list already changes nothing and sends
  nothing.
\<close>

theorem handle_fault_estop_when_new:
  assumes "truthy (dict_get (config s) ''emergency_stop_on_fault'' VNone)"
  shows "handle_fault fstr port_ok msg s =
     (if py_in (dict_get (msg_data msg) ''FAULT'' (VStr ''UNKNOWN'')) (faults s) then s
      else s\<lparr>faults := faults s @ [dict_get (msg_data msg) ''FAULT'' (VStr ''UNKNOWN'')],
             serial_tx := serial_tx s @ (if port_ok then [''<ESTOP>''] else [])\<rparr>)"
  using assms
  by (simp add: handle_fault_def Let_def add_fault_def emergency_stop_def send_message_def
        build_estop)

text \<open>
  C4, amended, at a concrete input: the frame \<^verbatim>\<open><FAULT:FAULT=OVERCURRENT>\<close> handled in
  the initial state with the default configuration.
\<close>

theorem handle_fault_estop_when_new_witness:
  "truthy (dict_get (config (init_controller default_config)) ''emergency_stop_on_fault'' VNone) \<and>
   handle_fault (\<lambda>f. []) True
       \<lparr>msg_type = ''FAULT'', msg_data = [(''FAULT'', VStr ''OVERCURRENT'')]\<rparr>
       (init_controller default_config) =
     (init_controller default_config)\<lparr>faults := [VStr ''OVERCURRENT''], serial_tx := [''<ESTOP>'']\<rparr>"
proof -
  have t: "truthy (dict_get (config (init_controller default_config)) ''emergency_stop_on_fault'' VNone)"
    by (simp add: init_controller_def default_config_def dict_get_def)
  show ?thesis
    using t handle_fault_estop_when_new [OF t, of "\<lambda>f. []" True
        "\<lparr>msg_type = ''FAULT'', msg_data = [(''FAULT'', VStr ''OVERCURRENT'')]\<rparr>"]
    by (simp add: init_controller_def dict_get_def py_in_def)
qed

lemma parse_data_frame:
  "rnd False 850 (- 1) = Finite 85 \<Longrightarrow>
   parse_message rnd ''<DATA:TEMP=85.0;SOC=50>'' =
     Some \<lparr>msg_type = ''DATA'', msg_data = [(''TEMP'', VFloat (Finite 85)), (''SOC'', VInt 50)]\<rparr>"
proof -
  assume r: "rnd False 850 (- 1) = Finite 85"
  have "parse_message rnd ''<DATA:TEMP=85.0;SOC=50>'' =
     Some \<lparr>msg_type = ''DATA'', msg_data = [(''TEMP'', VFloat (rnd False 850 (- 1))), (''SOC'', VInt 50)]\<rparr>"
    by code_simp
  then show ?thesis using r by simp
qed

lemma as_num_less:
  "as_num a = Some (Finite x) \<Longrightarrow> as_num b = Some (Finite y) \<Longrightarrow> py_lt a b = Inr (x < y)"
  by (simp add: py_lt_def)

text \<open>
  C3. Let the overheat threshold be 80 and the low-battery threshold 15. A telemetry
  message with a temperature \<open>t\<close> and a state of charge \<open>c\<close>, handled in any state, puts
  both into the telemetry, sets the connection flag, and extends the fault list by
  \<^verbatim>\<open>OVERHEAT\<close> when \<open>t\<close> is strictly above 80 and by \<^verbatim>\<open>LOW_BATTERY\<close> when \<open>c\<close> is strictly
  below 15, each only if the list does not hold it yet. For the message decoded from
  \<^verbatim>\<open><DATA:TEMP=85.0;SOC=50>\<close> that is: \<^verbatim>\<open>OVERHEAT\<close> added once unless present, and
  \<^verbatim>\<open>LOW_BATTERY\<close> not added.
\<close>

theorem handle_telemetry_thresholds:
  assumes hot: "as_num (dict_get (config s) ''overheat_threshold'' (VInt 80)) = Some (Finite 80)"
      and low: "as_num (dict_get (config s) ''low_battery_threshold'' (VInt 15)) = Some (Finite 15)"
      and m: "m = \<lparr>msg_type = ''DATA'', msg_data = [(''TEMP'', VFloat (Finite t)), (''SOC'', VInt c)]\<rparr>"
  shows "fst (handle_telemetry m s) = None \<and>
         telemetry (snd (handle_telemetry m s)) =
           AList.update ''SOC'' (VInt c) (AList.update ''TEMP'' (VFloat (Finite t)) (telemetry s)) \<and>
         connected (snd (handle_telemetry m s)) \<and>
         faults (snd (handle_telemetry m s)) =
           faults s @
           (if 80 < t \<and> VStr ''OVERHEAT'' \<notin> set (faults s) then [VStr ''OVERHEAT''] else []) @
           (if c < 15 \<and> VStr ''LOW_BATTERY'' \<notin> set (faults s) then [VStr ''LOW_BATTERY''] else []) \<and>
         (rnd False 850 (- 1) = Finite 85 \<longrightarrow> t = 85 \<longrightarrow> c = 50 \<longrightarrow>
            parse_message rnd ''<DATA:TEMP=85.0;SOC=50>'' = Some m \<and>
            faults (snd (handle_telemetry m s)) =
              (if VStr ''OVERHEAT'' \<in> set (faults s) then faults s else faults s @ [VStr ''OVERHEAT'']))"
proof -
  define s3 where "s3 = (let s1 = s\<lparr>telemetry := dict_update (telemetry s) (msg_data m)\<rparr>;
          s2 = s1\<lparr>connected := True\<rparr>
      in (if logging_enabled s2
                then log_data (telemetry s2) (dict_get (telemetry s2) ''THROTTLE'' (VInt 0)) s2
                else s2))"
  have ht: "handle_telemetry m s = check_safety_conditions s3"
    by (simp add: handle_telemetry_def s3_def Let_def)
  have tel: "telemetry s3 =
      AList.update ''SOC'' (VInt c) (AList.update ''TEMP'' (VFloat (Finite t)) (telemetry s))"
    by (simp add: s3_def Let_def log_data_def dict_update_def m)
  have rest: "connected s3" "faults s3 = faults s" "config s3 = config s"
    by (simp_all add: s3_def Let_def log_data_def)
  have temp: "dict_get (telemetry s3) ''TEMP'' (VInt 0) = VFloat (Finite t)"
    by (simp add: tel dict_get_def update_conv')
  have soc: "dict_get (telemetry s3) ''SOC'' (VInt 100) = VInt c"
    by (simp add: tel dict_get_def update_conv')
  have gt: "py_gt (VFloat (Finite t)) (dict_get (config s) ''overheat_threshold'' (VInt 80)) = Inr (80 < t)"
    unfolding py_gt_def using as_num_less [OF hot, of "VFloat (Finite t)" t] by simp
  have lt: "py_lt (VInt c) (dict_get (config s) ''low_battery_threshold'' (VInt 15)) = Inr (c < 15)"
    using as_num_less [OF _ low, of "VInt c" "of_int c"] by simp
  have cs: "check_safety_conditions s3 =
      (None, s3\<lparr>faults := faults s @
           (if 80 < t \<and> VStr ''OVERHEAT'' \<notin> set (faults s) then [VStr ''OVERHEAT''] else []) @
           (if c < 15 \<and> VStr ''LOW_BATTERY'' \<notin> set (faults s) then [VStr ''LOW_BATTERY''] else [])\<rparr>)"
    by (simp add: check_safety_conditions_def temp soc rest gt lt Let_def add_fault_def py_in_VStr)
  have gen: "fst (handle_telemetry m s) = None"
    "telemetry (snd (handle_telemetry m s)) =
           AList.update ''SOC'' (VInt c) (AList.update ''TEMP'' (VFloat (Finite t)) (telemetry s))"
    "connected (snd (handle_telemetry m s))"
    "faults (snd (handle_telemetry m s)) =
           faults s @
           (if 80 < t \<and> VStr ''OVERHEAT'' \<notin> set (faults s) then [VStr ''OVERHEAT''] else []) @
           (if c < 15 \<and> VStr ''LOW_BATTERY'' \<notin> set (faults s) then [VStr ''LOW_BATTERY''] else [])"
    by (simp_all add: ht cs tel rest)
  have scen: "rnd False 850 (- 1) = Finite 85 \<longrightarrow> t = 85 \<longrightarrow> c = 50 \<longrightarrow>
            parse_message rnd ''<DATA:TEMP=85.0;SOC=50>'' = Some m \<and>
            faults (snd (handle_telemetry m s)) =
              (if VStr ''OVERHEAT'' \<in> set (faults s) then faults s else faults s @ [VStr ''OVERHEAT''])"
  proof (intro impI)
    assume r: "rnd False 850 (- 1) = Finite 85" and t: "t = 85" and c: "c = 50"
    have p: "parse_message rnd ''<DATA:TEMP=85.0;SOC=50>'' = Some m"
      using parse_data_frame [of rnd] r by (simp add: m t c)
    have "faults (snd (handle_telemetry m s)) =
              (if VStr ''OVERHEAT'' \<in> set (faults s) then faults s else faults s @ [VStr ''OVERHEAT''])"
      unfolding gen(4) by (simp add: t c)
    with p show "parse_message rnd ''<DATA:TEMP=85.0;SOC=50>'' = Some m \<and>
            faults (snd (handle_telemetry m s)) =
              (if VStr ''OVERHEAT'' \<in> set (faults s) then faults s else faults s @ [VStr ''OVERHEAT''])"
      by simp
  qed
  show ?thesis using gen scen by blast
qed

text \<open>
  C3, at a concrete input: the frame handled in the initial state with the default
  configuration.
\<close>

theorem handle_telemetry_thresholds_witness:
  "parse_message decimal_value ''<DATA:TEMP=85.0;SOC=50>'' =
     Some \<lparr>msg_type = ''DATA'', msg_data = [(''TEMP'', VFloat (Finite 85)), (''SOC'', VInt 50)]\<rparr> \<and>
   faults (snd (handle_telemetry
       \<lparr>msg_type = ''DATA'', msg_data = [(''TEMP'', VFloat (Finite 85)), (''SOC'', VInt 50)]\<rparr>
       (init_controller default_config))) = [VStr ''OVERHEAT''] \<and>
   telemetry (snd (handle_telemetry
       \<lparr>msg_type = ''DATA'', msg_data = [(''TEMP'', VFloat (Finite 85)), (''SOC'', VInt 50)]\<rparr>
       (init_controller default_config))) = [(''TEMP'', VFloat (Finite 85)), (''SOC'', VInt 50)] \<and>
   connected (snd (handle_telemetry
       \<lparr>msg_type = ''DATA'', msg_data = [(''TEMP'', VFloat (Finite 85)), (''SOC'', VInt 50)]\<rparr>
       (init_controller default_config)))"
proof -
  let ?s = "init_controller default_config"
  have hot: "as_num (dict_get (config ?s) ''overheat_threshold'' (VInt 80)) = Some (Finite 80)"
    by (simp add: init_controller_def default_config_def dict_get_def)
  have low: "as_num (dict_get (config ?s) ''low_battery_threshold'' (VInt 15)) = Some (Finite 15)"
    by (simp add: init_controller_def default_config_def dict_get_def)
  have r: "decimal_value False 850 (- 1) = Finite 85"
    by (simp add: decimal_value_def)
  show ?thesis
    using handle_telemetry_thresholds [OF hot low refl, of 85 50 decimal_value] r
    by (simp add: init_controller_def)
qed

section \<open>Properties of the frame codec\<close>









lemma str_split_ne: "str_split c s \<noteq> []"
  by (induction s) (auto split: list.splits)

































text \<open>
  The decoder of \<^verbatim>\<open>standalone_test.py\<close> gives the kind and the payload of the decoder of
  the main application, for every frame; the decoder of the simulator does so for the
  frames in which every token has a \<^verbatim>\<open>=\<close>.
\<close>

lemma standalone_same:
  "map_option message.truncate (standalone_parse_message rnd raw) = parse_message rnd raw"
  by (simp add: standalone_parse_message_def parse_message_def message.truncate_def raw_message.defs Let_def
      split: prod.splits)

lemma sim_same_with_values:
  assumes "\<forall>t\<in>set (str_split PARAM_SEP (snd (split_kind (strip_frame raw)))). VALUE_SEP \<in> set t"
  shows "sim_parse_message rnd raw = parse_message rnd raw"
proof -
  have "\<forall>t\<in>set ts. VALUE_SEP \<in> set t \<Longrightarrow>
        fold (sim_parse_param rnd) ts acc = fold (parse_param rnd) ts acc" for ts acc
    by (induction ts arbitrary: acc) (simp_all add: sim_parse_param_def parse_param_def)
  then show ?thesis
    using assms by (simp add: sim_parse_message_def parse_message_def split: prod.splits)
qed

text \<open>
  C9, at the frame \<^verbatim>\<open><ESTOP:NOW>\<close>: the decoders of the main application and of the
  standalone test give the payload with the flag \<^verbatim>\<open>NOW\<close>, the decoder of the simulator
  gives the empty payload.
\<close>

theorem sim_parse_drops_flag:
  "parse_message decimal_value ''<ESTOP:NOW>'' =
     Some \<lparr>msg_type = ''ESTOP'', msg_data = [(''NOW'', VBool True)]\<rparr> \<and>
   standalone_parse_message decimal_value ''<ESTOP:NOW>'' =
     Some \<lparr>msg_type = ''ESTOP'', msg_data = [(''NOW'', VBool True)], msg_raw = ''ESTOP:NOW''\<rparr> \<and>
   sim_parse_message decimal_value ''<ESTOP:NOW>'' =
     Some \<lparr>msg_type = ''ESTOP'', msg_data = []\<rparr>"
  by code_simp


end
